theory Spec2Isabelle
  imports Main "HOL-Library.Word"
begin

section \<open>Fold helpers over template parameter packs\<close>

text \<open>
  Source: \<^verbatim>\<open>code_samples/template_metaprogramming_helpers.cpp\<close>.
  A template parameter pack \<^verbatim>\<open>Args...\<close> is a finite sequence of types; it is modelled
  as a list over a type \<open>'t\<close> of type names. A predicate template
  \<^verbatim>\<open>Predicate<T>\<close>, whose instances convert to \<^verbatim>\<open>bool\<close> at compile time, is a
  function \<open>'t \<Rightarrow> bool\<close>.

  \<^verbatim>\<open>(Predicate<Args>() && ...)\<close> is a unary right fold: for a pack \<open>E1, ..., En\<close> it is
  \<open>E1 && (... && (En-1 && En))\<close>, and for the empty pack it is \<^verbatim>\<open>true\<close> for \<^verbatim>\<open>&&\<close>
  and \<^verbatim>\<open>false\<close> for \<^verbatim>\<open>||\<close>.
\<close>

fun all_of :: "('t \<Rightarrow> bool) \<Rightarrow> 't list \<Rightarrow> bool" where
  "all_of Predicate [] = True"
| "all_of Predicate [T] = Predicate T"
| "all_of Predicate (T # Args) = (Predicate T \<and> all_of Predicate Args)"

fun any_of :: "('t \<Rightarrow> bool) \<Rightarrow> 't list \<Rightarrow> bool" where
  "any_of Predicate [] = False"
| "any_of Predicate [T] = Predicate T"
| "any_of Predicate (T # Args) = (Predicate T \<or> any_of Predicate Args)"

definition none_of :: "('t \<Rightarrow> bool) \<Rightarrow> 't list \<Rightarrow> bool" where
  "none_of Predicate Args = (\<not> any_of Predicate Args)"

section \<open>The task names\<close>

text \<open>
  \<^verbatim>\<open>std::to_string(int)\<close> is library code: it renders its argument in decimal, with a
  leading minus sign for a negative value and no leading zeros.
\<close>

definition digit_char :: "nat \<Rightarrow> char" where
  "digit_char d = ''0123456789'' ! d"

fun string_of_nat :: "nat \<Rightarrow> string" where
  "string_of_nat n =
     (if n < 10 then [digit_char n]
      else string_of_nat (n div 10) @ [digit_char (n mod 10)])"

declare string_of_nat.simps [simp del]

definition to_string :: "int \<Rightarrow> string" where
  "to_string v =
     (if v < 0 then CHR ''-'' # string_of_nat (nat (- v)) else string_of_nat (nat v))"

text \<open>
  The number a string of decimal digits denotes, to say what \<open>to_string\<close> renders.
\<close>

definition digit_value :: "char \<Rightarrow> nat" where
  "digit_value ch = of_char ch - 48"

definition decimal_value :: "string \<Rightarrow> nat" where
  "decimal_value s = foldl (\<lambda>v ch. 10 * v + digit_value ch) 0 s"

text \<open>
  The generator of \<^verbatim>\<open>get_tasks\<close> is the mutable lambda
  \<^verbatim>\<open>[i = 0]() mutable { return "task" + std::to_string(i++); }\<close>.
  Its captured counter \<open>i\<close> has the type of the literal \<^verbatim>\<open>0\<close>, that is \<^verbatim>\<open>int\<close>:
  a 32-bit two's-complement integer, modelled as a \<open>32 word\<close> read with \<open>sint\<close>.
  Incrementing \<open>2147483647\<close> overflows, and the language leaves the behaviour of the
  program undefined from there on. The generator's state is therefore the counter
  together with a flag that holds as long as every increment so far was defined.
  One call returns the name for the current counter and leaves the counter incremented.
  So that the model stays a function, the counter goes on with the two's-complement
  value; once the flag is down, what the model renders says nothing about the source.
\<close>

definition task_gen :: "32 word \<times> bool \<Rightarrow> string \<times> (32 word \<times> bool)" where
  "task_gen s =
     (''task'' @ to_string (sint (fst s)),
      (fst s + 1, snd s \<and> sint (fst s) \<noteq> 2147483647))"

text \<open>
  \<^verbatim>\<open>std::generate_n(std::back_inserter(tasks), count, g)\<close> is library code: it calls
  the generator \<open>count\<close> times and appends each result to the vector, in call order.
  The generator's captured state is threaded through the calls.
\<close>

fun std_generate_n :: "'a list \<Rightarrow> nat \<Rightarrow> ('s \<Rightarrow> 'a \<times> 's) \<Rightarrow> 's \<Rightarrow> 'a list \<times> 's" where
  "std_generate_n tasks 0 g s = (tasks, s)"
| "std_generate_n tasks (Suc count) g s =
     (case g s of (v, s') \<Rightarrow> std_generate_n (tasks @ [v]) count g s')"

text \<open>
  \<^verbatim>\<open>get_tasks\<close>, lines 340-348 of the sample. \<^verbatim>\<open>num_of_tasks\<close> is a \<^verbatim>\<open>size_t\<close>, a
  natural number. \<^verbatim>\<open>tasks.reserve\<close> changes the capacity only; memory is taken to be
  unbounded, so allocation never fails.
\<close>

definition get_tasks :: "nat \<Rightarrow> string list" where
  "get_tasks num_of_tasks = fst (std_generate_n [] num_of_tasks task_gen (0, True))"

text \<open>
  Whether the call \<^verbatim>\<open>get_tasks(num_of_tasks)\<close> stays within defined behaviour: no
  increment of the counter has overflowed when the last name is generated.
\<close>

definition get_tasks_defined :: "nat \<Rightarrow> bool" where
  "get_tasks_defined num_of_tasks =
     snd (snd (std_generate_n [] num_of_tasks task_gen (0, True)))"

section \<open>The element type and the sequence container\<close>

text \<open>
  Source: the emplace-back-iterator sample (\<^verbatim>\<open>unnamed/part_001\<close>, lines 253-386).

  \<^verbatim>\<open>ProgressBar\<close> holds an output stream bound to a stream buffer, a prefix and a
  progress value. A \<^verbatim>\<open>std::streambuf*\<close> is modelled by the identity of the buffer; the
  stream \<open>m_out\<close> by the buffer it writes to. \<open>m_progress\<close> is a \<^verbatim>\<open>double\<close> that only
  ever holds \<open>0, 10, 20, \<dots>\<close>, values a \<^verbatim>\<open>double\<close> represents exactly; it is modelled as
  an integer.
\<close>

type_synonym streambuf = nat

record ProgressBar =
  m_out :: streambuf
  m_prefix :: string
  m_progress :: int

text \<open>
  An element constructor takes the two components of a bundle and either throws (\<open>Inl\<close>)
  or yields the element (\<open>Inr\<close>). The constructor of \<^verbatim>\<open>ProgressBar\<close> never throws.
\<close>

definition ProgressBar_ctor :: "streambuf \<Rightarrow> string \<Rightarrow> 'x + ProgressBar" where
  "ProgressBar_ctor buffer pfx = Inr \<lparr>m_out = buffer, m_prefix = pfx, m_progress = 0\<rparr>"





text \<open>
  \<^verbatim>\<open>std::deque<T>::emplace_back(args...)\<close> is library code. It constructs a new last
  element from the arguments, in the container's own storage. If the constructor throws,
  the call has no effect on the container. The result is the exception, if any, and the
  container afterwards. A container's \<^verbatim>\<open>emplace_back\<close> in general is a function of
  this shape.
\<close>

type_synonym ('c, 'a, 'b, 'x) emplace_back = "'c \<Rightarrow> 'a \<Rightarrow> 'b \<Rightarrow> 'x option \<times> 'c"

definition deque_emplace_back ::
  "('a \<Rightarrow> 'b \<Rightarrow> 'x + 'e) \<Rightarrow> ('e list, 'a, 'b, 'x) emplace_back" where
  "deque_emplace_back ctor c a b =
     (case ctor a b of Inl x \<Rightarrow> (Some x, c) | Inr e \<Rightarrow> (None, c @ [e]))"

section \<open>The emplacing output adapter\<close>

text \<open>
  Containers live in memory at addresses; the heap maps the address of each live
  container to its value. The adapter stores the address of its container
  (\<^verbatim>\<open>Container *m_container\<close>) and nothing else.
\<close>

type_synonym addr = nat

type_synonym 'c heap = "addr \<rightharpoonup> 'c"

record back_emplace_iterator =
  m_container :: addr

text \<open>
  A call fails either because the element constructor threw, or because
  \<open>m_container\<close> is dereferenced when no container lives at that address (undefined
  behaviour in the source).
\<close>

datatype 'x failure = Thrown 'x | Dangling_pointer

text \<open>
  The constructor takes the container by reference, that is by its address, and stores
  \<^verbatim>\<open>std::addressof(container)\<close>.
\<close>

definition back_emplace_iterator_ctor :: "addr \<Rightarrow> back_emplace_iterator" where
  "back_emplace_iterator_ctor container = \<lparr>m_container = container\<rparr>"

definition back_emplacer :: "addr \<Rightarrow> back_emplace_iterator" where
  "back_emplacer c = back_emplace_iterator_ctor c"

text \<open>
  A member function runs on the adapter \<open>this\<close> in a heap and yields its return value, the
  adapter afterwards and the heap afterwards. A returned \<^verbatim>\<open>back_emplace_iterator &\<close>
  bound to \<^verbatim>\<open>*this\<close> is the adapter itself; the by-value result of the post-increment is
  a copy of it. Both are the adapter's value here.
\<close>

definition op_deref ::
  "back_emplace_iterator \<Rightarrow> 'c heap \<Rightarrow> back_emplace_iterator \<times> back_emplace_iterator \<times> 'c heap" where
  "op_deref this h = (this, this, h)"

definition op_pre_inc ::
  "back_emplace_iterator \<Rightarrow> 'c heap \<Rightarrow> back_emplace_iterator \<times> back_emplace_iterator \<times> 'c heap" where
  "op_pre_inc this h = (this, this, h)"

definition op_post_inc ::
  "back_emplace_iterator \<Rightarrow> 'c heap \<Rightarrow> back_emplace_iterator \<times> back_emplace_iterator \<times> 'c heap" where
  "op_post_inc this h = (this, this, h)"

text \<open>
  A bundle is a \<^verbatim>\<open>std::tuple\<close> of two components of arbitrary types, the arity of the
  bundles of this repository; \<^verbatim>\<open>std::make_tuple\<close> builds one. \<^verbatim>\<open>std::apply(f, t)\<close>
  is library code: it calls \<open>f\<close> with \<^verbatim>\<open>std::get<0>(t)\<close>, \<^verbatim>\<open>std::get<1>(t)\<close>, in
  index order. The components are values: whether the source hands one over as a
  temporary or as a reference to a named object (\<^verbatim>\<open>std::forward\<close>) is a matter of
  C++ expression typing and has no counterpart here. Likewise a bundle whose component
  types do not fit the element constructor is not a well-typed term.
\<close>

definition std_make_tuple :: "'a \<Rightarrow> 'b \<Rightarrow> 'a \<times> 'b" where
  "std_make_tuple a b = (a, b)"

definition std_apply :: "('a \<Rightarrow> 'b \<Rightarrow> 'r) \<Rightarrow> 'a \<times> 'b \<Rightarrow> 'r" where
  "std_apply f t = f (fst t) (snd t)"

text \<open>
  The assignment operator, lines 320-326: it applies the container's
  \<^verbatim>\<open>emplace_back\<close> to the unpacked bundle and returns \<^verbatim>\<open>*this\<close>. An exception leaves
  through the operator; the container is then in the state in which its
  \<^verbatim>\<open>emplace_back\<close> left it.
\<close>

definition op_assign ::
  "('c, 'a, 'b, 'x) emplace_back \<Rightarrow> back_emplace_iterator \<Rightarrow> 'a \<times> 'b \<Rightarrow> 'c heap
     \<Rightarrow> ('x failure + back_emplace_iterator) \<times> back_emplace_iterator \<times> 'c heap" where
  "op_assign emplace_back this tuple_args h =
     (case h (m_container this) of
        None \<Rightarrow> (Inl Dangling_pointer, this, h)
      | Some c \<Rightarrow>
          (case std_apply (\<lambda>a b. emplace_back c a b) tuple_args of
             (Some x, c') \<Rightarrow> (Inl (Thrown x), this, h(m_container this \<mapsto> c'))
           | (None, c') \<Rightarrow> (Inr this, this, h(m_container this \<mapsto> c'))))"

text \<open>
  \<^verbatim>\<open>std::transform(first, last, result, unary_op)\<close> is library code: for each input
  in order it performs \<^verbatim>\<open>*result = unary_op(*first)\<close>, then \<^verbatim>\<open>++result\<close>, and it
  returns \<open>result\<close>. The input range is the list of its elements. The reference that
  \<^verbatim>\<open>*result\<close> yields is \<open>result\<close> itself, so the assignment runs on \<open>result\<close>.
\<close>

fun std_transform ::
  "('c, 'a, 'b, 'x) emplace_back \<Rightarrow> 'i list \<Rightarrow> back_emplace_iterator \<Rightarrow> ('i \<Rightarrow> 'a \<times> 'b)
     \<Rightarrow> 'c heap \<Rightarrow> ('x failure + back_emplace_iterator) \<times> 'c heap" where
  "std_transform emplace_back [] result unary_op h = (Inr result, h)"
| "std_transform emplace_back (x # xs) result unary_op h =
     (case op_deref result h of
        (r, result1, h1) \<Rightarrow>
          (case op_assign emplace_back result1 (unary_op x) h1 of
             (Inl f, result2, h2) \<Rightarrow> (Inl f, h2)
           | (Inr r', result2, h2) \<Rightarrow>
               (case op_pre_inc result2 h2 of
                  (r'', result3, h3) \<Rightarrow> std_transform emplace_back xs result3 unary_op h3)))"

section \<open>The demonstration drivers\<close>







section \<open>Sequences of adapter operations\<close>

text \<open>
  To speak about any number of calls in any order, the four member functions are named
  by a datatype, and a sequence of calls on one adapter is run in order, stopping at the
  first failure.
\<close>

datatype ('a, 'b) operation =
  Dereference | Pre_increment | Post_increment | Assignment "'a \<times> 'b"

fun is_noop :: "('a, 'b) operation \<Rightarrow> bool" where
  "is_noop (Assignment t) = False"
| "is_noop op = True"

fun perform ::
  "('c, 'a, 'b, 'x) emplace_back \<Rightarrow> ('a, 'b) operation \<Rightarrow> back_emplace_iterator \<Rightarrow> 'c heap
     \<Rightarrow> ('x failure + back_emplace_iterator) \<times> back_emplace_iterator \<times> 'c heap" where
  "perform emplace_back Dereference this h =
     (case op_deref this h of (r, this', h') \<Rightarrow> (Inr r, this', h'))"
| "perform emplace_back Pre_increment this h =
     (case op_pre_inc this h of (r, this', h') \<Rightarrow> (Inr r, this', h'))"
| "perform emplace_back Post_increment this h =
     (case op_post_inc this h of (r, this', h') \<Rightarrow> (Inr r, this', h'))"
| "perform emplace_back (Assignment t) this h = op_assign emplace_back this t h"

fun perform_all ::
  "('c, 'a, 'b, 'x) emplace_back \<Rightarrow> ('a, 'b) operation list \<Rightarrow> back_emplace_iterator \<Rightarrow> 'c heap
     \<Rightarrow> 'x failure option \<times> back_emplace_iterator \<times> 'c heap" where
  "perform_all emplace_back [] this h = (None, this, h)"
| "perform_all emplace_back (op # ops) this h =
     (case perform emplace_back op this h of
        (Inl f, this', h') \<Rightarrow> (Some f, this', h')
      | (Inr r, this', h') \<Rightarrow> perform_all emplace_back ops this' h')"

section \<open>Properties of the fold helpers\<close>

lemma all_of_iff: "all_of Predicate Args = (\<forall>T \<in> set Args. Predicate T)"
  by (induction Predicate Args rule: all_of.induct) simp_all

lemma any_of_iff: "any_of Predicate Args = (\<exists>T \<in> set Args. Predicate T)"
  by (induction Predicate Args rule: any_of.induct) simp_all

lemma none_of_iff: "none_of Predicate Args = (\<forall>T \<in> set Args. \<not> Predicate T)"
  by (simp add: none_of_def any_of_iff)

text \<open>
  Claim C10. For every predicate, \<open>all_of\<close> over the empty pack is true, \<open>any_of\<close> over the
  empty pack is false, and for every pack \<open>none_of\<close> is the negation of \<open>any_of\<close>.
\<close>

theorem fold_identities_and_negation:
  "all_of Predicate [] = True
   \<and> any_of Predicate [] = False
   \<and> none_of Predicate Args = (\<not> any_of Predicate Args)"
  by (simp add: none_of_def)

section \<open>Properties of the task names\<close>

text \<open>\<open>to_string\<close> of a natural number is its decimal rendering.\<close>

lemma digit_value_digit_char: "d < 10 \<Longrightarrow> digit_value (digit_char d) = d"
proof -
  assume "d < 10"
  then have "d = 0 \<or> d = 1 \<or> d = 2 \<or> d = 3 \<or> d = 4 \<or> d = 5 \<or> d = 6 \<or> d = 7 \<or> d = 8 \<or> d = 9"
    by arith
  then show ?thesis
    by (elim disjE) (simp_all add: digit_char_def digit_value_def)
qed

lemma decimal_value_snoc:
  "decimal_value (s @ [ch]) = 10 * decimal_value s + digit_value ch"
  by (simp add: decimal_value_def)

lemma decimal_value_string_of_nat: "decimal_value (string_of_nat n) = n"
proof (induction n rule: string_of_nat.induct)
  case (1 n)
  show ?case
  proof (cases "n < 10")
    case True
    then show ?thesis
      by (simp add: string_of_nat.simps [of n] decimal_value_def digit_value_digit_char)
  next
    case False
    then have "decimal_value (string_of_nat n)
        = 10 * decimal_value (string_of_nat (n div 10)) + digit_value (digit_char (n mod 10))"
      by (simp add: string_of_nat.simps [of n] decimal_value_snoc)
    also have "\<dots> = 10 * (n div 10) + n mod 10"
      using False by (simp add: "1.IH" digit_value_digit_char)
    finally show ?thesis by simp
  qed
qed

lemma to_string_decimal:
  "to_string (int i) = string_of_nat i \<and> decimal_value (to_string (int i)) = i"
  by (simp add: to_string_def decimal_value_string_of_nat)

text \<open>
  The loop of \<^verbatim>\<open>std::generate_n\<close> with the generator of \<^verbatim>\<open>get_tasks\<close>: the \<open>k\<close>-th
  call sees the counter \<open>i + k\<close>, in 32-bit arithmetic, and the flag stays up exactly
  while no call has incremented \<open>2147483647\<close>.
\<close>

lemma upt_shift: "map f [0..<Suc n] = f 0 # map (\<lambda>k. f (Suc k)) [0..<n]"
proof -
  have "[0..<Suc n] = 0 # map Suc [0..<n]"
    by (simp only: map_Suc_upt upt_conv_Cons [OF zero_less_Suc])
  then show ?thesis by (simp only: list.map map_map comp_def)
qed

lemma all_less_Suc_shift: "(\<forall>k < Suc n. P k) = (P 0 \<and> (\<forall>k < n. P (Suc k)))"
  by (auto simp: less_Suc_eq_0_disj)

lemma std_generate_n_task_gen:
  "std_generate_n tasks count task_gen (i, d) =
     (tasks @ map (\<lambda>k. ''task'' @ to_string (sint (i + word_of_nat k))) [0..<count],
      (i + word_of_nat count,
       d \<and> (\<forall>k < count. sint (i + word_of_nat k) \<noteq> 2147483647)))"
proof (induction count arbitrary: tasks i d)
  case 0
  then show ?case by simp
next
  case (Suc count)
  let ?name = "\<lambda>k. ''task'' @ to_string (sint (i + word_of_nat k))"
  let ?d = "d \<and> sint i \<noteq> 2147483647"
  have "std_generate_n tasks (Suc count) task_gen (i, d)
      = std_generate_n (tasks @ [?name 0]) count task_gen (i + 1, ?d)"
    by (simp add: task_gen_def)
  also have "\<dots> = ((tasks @ [?name 0])
        @ map (\<lambda>k. ''task'' @ to_string (sint (i + 1 + word_of_nat k))) [0..<count],
      (i + 1 + word_of_nat count,
       ?d \<and> (\<forall>k < count. sint (i + 1 + word_of_nat k) \<noteq> 2147483647)))"
    by (rule Suc.IH)
  also have "\<dots> = (tasks @ map ?name [0..<Suc count],
      (i + word_of_nat (Suc count),
       d \<and> (\<forall>k < Suc count. sint (i + word_of_nat k) \<noteq> 2147483647)))"
    by (simp only: upt_shift [of ?name] all_less_Suc_shift [where n = count]) (simp add: ac_simps)
  finally show ?case .
qed

lemma get_tasks_rendering:
  "get_tasks n = map (\<lambda>k. ''task'' @ to_string (sint (word_of_nat k :: 32 word))) [0..<n]"
  by (simp add: get_tasks_def std_generate_n_task_gen)

lemma length_get_tasks: "length (get_tasks n) = n"
  by (simp add: get_tasks_rendering)

lemma get_tasks_defined_iff_no_overflow:
  "get_tasks_defined n = (\<forall>k < n. sint (word_of_nat k :: 32 word) \<noteq> 2147483647)"
  by (simp add: get_tasks_defined_def std_generate_n_task_gen)

lemma sint_counter_in_range: "k < 2147483648 \<Longrightarrow> sint (word_of_nat k :: 32 word) = int k"
  by (simp add: signed_of_nat signed_take_bit_int_eq_self)

lemma get_tasks_defined_iff: "get_tasks_defined n = (n \<le> 2147483647)"
proof
  assume d: "get_tasks_defined n"
  show "n \<le> 2147483647"
  proof (rule ccontr)
    assume "\<not> n \<le> 2147483647"
    then have "(2147483647 :: nat) < n" by simp
    with d have "sint (word_of_nat 2147483647 :: 32 word) \<noteq> 2147483647"
      unfolding get_tasks_defined_iff_no_overflow by blast
    then show False by simp
  qed
next
  assume n: "n \<le> 2147483647"
  show "get_tasks_defined n"
    unfolding get_tasks_defined_iff_no_overflow
  proof (intro allI impI)
    fix k assume "k < n"
    with n have k: "k < 2147483647" by simp
    then have "sint (word_of_nat k :: 32 word) = int k"
      by (simp add: sint_counter_in_range)
    with k show "sint (word_of_nat k :: 32 word) \<noteq> 2147483647" by simp
  qed
qed

lemma get_tasks_within_int_range:
  assumes "n \<le> 2147483647"
  shows "get_tasks_defined n
    \<and> length (get_tasks n) = n
    \<and> get_tasks n = map (\<lambda>i. ''task'' @ to_string (int i)) [0..<n]"
proof (intro conjI)
  show "get_tasks_defined n" using assms by (simp add: get_tasks_defined_iff)
  show "length (get_tasks n) = n" by (rule length_get_tasks)
  show "get_tasks n = map (\<lambda>i. ''task'' @ to_string (int i)) [0..<n]"
    unfolding get_tasks_rendering
  proof (rule map_cong [OF refl])
    fix k assume "k \<in> set [0..<n]"
    with assms have "k < 2147483648" by simp
    then show "''task'' @ to_string (sint (word_of_nat k :: 32 word)) = ''task'' @ to_string (int k)"
      by (simp only: sint_counter_in_range)
  qed
qed

lemma get_tasks_three: "get_tasks_defined 3 \<and> get_tasks 3 = [''task0'', ''task1'', ''task2'']"
proof -
  have h: "(3::nat) \<le> 2147483647" by simp
  have "[0..<3] = [0, 1, 2]" by (simp add: upt_rec)
  with get_tasks_within_int_range [OF h] show ?thesis
    by (simp add: to_string_def string_of_nat.simps digit_char_def)
qed

text \<open>
  Claim C9. For every \<open>num_of_tasks\<close> \<open>n\<close>, \<open>get_tasks n\<close> is to be a vector of exactly
  \<open>n\<close> strings whose \<open>i\<close>-th element (0-based) is \<open>task\<close> followed by \<open>i\<close> in decimal.
  The code sets out to do this and misses it for large \<open>n\<close>: the counter is an
  \<^verbatim>\<open>int\<close> while the count is a \<^verbatim>\<open>size_t\<close>, and nothing guards the increment. Up to
  \<open>n = 2147483647\<close> the call is defined, and \<open>get_tasks_within_int_range\<close> gives the
  names. With \<open>n = 2147483648\<close> the last call increments the counter \<open>2147483647\<close>:
  the behaviour is undefined and the code guarantees no result.
\<close>

theorem get_tasks_counter_overflows:
  "get_tasks_defined 2147483647 \<and> \<not> get_tasks_defined 2147483648"
  by (simp add: get_tasks_defined_iff)

section \<open>The assignment operator\<close>

lemma op_assign_live:
  assumes "h (m_container this) = Some c"
  shows "op_assign emplace_back this (a, b) h =
    (case emplace_back c a b of
       (Some x, c') \<Rightarrow> (Inl (Thrown x), this, h(m_container this \<mapsto> c'))
     | (None, c') \<Rightarrow> (Inr this, this, h(m_container this \<mapsto> c')))"
  using assms by (simp add: op_assign_def std_apply_def)

lemma op_assign_deque_ok:
  assumes "h (m_container this) = Some c" and "ctor a b = Inr e"
  shows "op_assign (deque_emplace_back ctor) this (a, b) h =
    (Inr this, this, h(m_container this \<mapsto> c @ [e]))"
  using assms by (simp add: op_assign_live deque_emplace_back_def)

lemma op_assign_deque_throw:
  assumes "h (m_container this) = Some c" and "ctor a b = Inl x"
  shows "op_assign (deque_emplace_back ctor) this (a, b) h = (Inl (Thrown x), this, h)"
  using assms by (simp add: op_assign_live deque_emplace_back_def map_upd_triv)

text \<open>
  Claim C5. One assignment of the bundle \<open>(a, b)\<close> through an adapter whose container
  is alive calls the container's \<^verbatim>\<open>emplace_back\<close> once, with \<open>a\<close> then \<open>b\<close>, stores the
  container as that call left it, and returns the adapter itself. With the deque's
  \<^verbatim>\<open>emplace_back\<close> and a constructor that yields \<open>e\<close> from \<open>a\<close> and \<open>b\<close>, the container
  grows by exactly the one element \<open>e\<close>, at its end. The adapter never holds a value of
  the element type: \<open>e\<close> comes into being inside \<^verbatim>\<open>emplace_back\<close> only.
\<close>

theorem assignment_emplaces_once:
  assumes "h (m_container this) = Some c" and "ctor a b = Inr e"
  shows "op_assign emplace_back this (a, b) h =
      (case emplace_back c a b of
         (Some x, c') \<Rightarrow> (Inl (Thrown x), this, h(m_container this \<mapsto> c'))
       | (None, c') \<Rightarrow> (Inr this, this, h(m_container this \<mapsto> c')))
    \<and> op_assign (deque_emplace_back ctor) this (a, b) h =
      (Inr this, this, h(m_container this \<mapsto> c @ [e]))"
  using assms by (simp add: op_assign_live deque_emplace_back_def)

theorem assignment_emplaces_once_witness:
  "[0 \<mapsto> []] (m_container (back_emplacer 0)) = Some ([] :: ProgressBar list)
   \<and> (ProgressBar_ctor 7 ''task0'' :: unit + ProgressBar)
       = Inr \<lparr>m_out = 7, m_prefix = ''task0'', m_progress = 0\<rparr>
   \<and> op_assign (deque_emplace_back (ProgressBar_ctor :: _ \<Rightarrow> _ \<Rightarrow> unit + _))
        (back_emplacer 0) (7, ''task0'') [0 \<mapsto> []]
     = (Inr (back_emplacer 0), back_emplacer 0,
        [0 \<mapsto> [\<lparr>m_out = 7, m_prefix = ''task0'', m_progress = 0\<rparr>]])"
proof -
  let ?h = "[0 \<mapsto> []] :: ProgressBar list heap"
  let ?ctor = "ProgressBar_ctor :: _ \<Rightarrow> _ \<Rightarrow> unit + _"
  let ?e = "\<lparr>m_out = 7, m_prefix = ''task0'', m_progress = 0\<rparr>"
  have live: "?h (m_container (back_emplacer 0)) = Some []"
    by (simp add: back_emplacer_def back_emplace_iterator_ctor_def)
  have ok: "?ctor 7 ''task0'' = Inr ?e"
    by (simp add: ProgressBar_ctor_def)
  from assignment_emplaces_once [of ?h "back_emplacer 0" "[]" ?ctor 7 "''task0''" ?e
      "deque_emplace_back ?ctor", OF live ok]
  have "op_assign (deque_emplace_back ?ctor) (back_emplacer 0) (7, ''task0'') ?h
      = (Inr (back_emplacer 0), back_emplacer 0, ?h(m_container (back_emplacer 0) \<mapsto> [] @ [?e]))"
    by (rule conjunct2)
  with live ok show ?thesis
    by (simp add: back_emplacer_def back_emplace_iterator_ctor_def)
qed

text \<open>
  Claim C3. If the element constructor throws \<open>x\<close> during an assignment, the assignment
  fails with that same \<open>x\<close>, and the heap afterwards is the heap before: the container
  holds the elements it held before the attempt, so its element count is unchanged.
\<close>

theorem failed_construction_leaves_container:
  assumes "h (m_container this) = Some c" and "ctor a b = Inl x"
  shows "op_assign (deque_emplace_back ctor) this (a, b) h = (Inl (Thrown x), this, h)"
  using assms by (rule op_assign_deque_throw)

theorem failed_construction_leaves_container_witness:
  "[0 \<mapsto> [(1, ''a'')]] (m_container (back_emplacer 0)) = Some [(1 :: nat, ''a'')]
   \<and> (\<lambda>n s. if s = [] then Inl ''invalid argument'' else Inr (n, s)) (2 :: nat) []
       = Inl ''invalid argument''
   \<and> op_assign
        (deque_emplace_back (\<lambda>n s. if s = [] then Inl ''invalid argument'' else Inr (n, s)))
        (back_emplacer 0) (2 :: nat, []) [0 \<mapsto> [(1 :: nat, ''a'')]]
     = (Inl (Thrown ''invalid argument''), back_emplacer 0, [0 \<mapsto> [(1, ''a'')]])"
proof -
  let ?ctor = "\<lambda>(n :: nat) s. if s = [] then Inl ''invalid argument'' else Inr (n, s)"
  let ?h = "[0 \<mapsto> [(1 :: nat, ''a'')]]"
  have live: "?h (m_container (back_emplacer 0)) = Some [(1, ''a'')]"
    by (simp add: back_emplacer_def back_emplace_iterator_ctor_def)
  have throws: "?ctor 2 [] = Inl ''invalid argument''"
    by simp
  from failed_construction_leaves_container [of ?h "back_emplacer 0" "[(1, ''a'')]" ?ctor 2 "[]",
      OF live throws] live throws
  show ?thesis by blast
qed

section \<open>Dereference, increments and the container reference\<close>

lemma op_assign_frame:
  assumes "op_assign emplace_back this t h = (r, this', h')"
  shows "this' = this \<and> dom h' = dom h \<and> (\<forall>p. p \<noteq> m_container this \<longrightarrow> h' p = h p)"
proof (cases "h (m_container this)")
  case None
  with assms show ?thesis by (simp add: op_assign_def)
next
  case (Some c)
  then have "insert (m_container this) (dom h) = dom h" by (simp add: insert_absorb domI)
  with assms Some show ?thesis
    by (auto simp: op_assign_def split: prod.splits option.splits)
qed

lemma perform_frame:
  assumes "perform emplace_back op this h = (r, this', h')"
  shows "this' = this \<and> dom h' = dom h \<and> (\<forall>p. p \<noteq> m_container this \<longrightarrow> h' p = h p)"
proof (cases op)
  case (Assignment t)
  with assms show ?thesis by (simp add: op_assign_frame)
qed (use assms in \<open>simp_all add: op_deref_def op_pre_inc_def op_post_inc_def\<close>)

lemma perform_all_frame:
  assumes "perform_all emplace_back ops this h = (r, this', h')"
  shows "this' = this \<and> dom h' = dom h \<and> (\<forall>p. p \<noteq> m_container this \<longrightarrow> h' p = h p)"
  using assms
proof (induction ops arbitrary: h)
  case Nil
  then show ?case by simp
next
  case (Cons op ops)
  obtain r1 this1 h1 where p: "perform emplace_back op this h = (r1, this1, h1)"
    by (cases "perform emplace_back op this h") auto
  from perform_frame [OF p]
  have f1: "this1 = this" "dom h1 = dom h" "\<forall>p. p \<noteq> m_container this \<longrightarrow> h1 p = h p"
    by simp_all
  show ?case
  proof (cases r1)
    case (Inl f)
    with Cons.prems p f1 show ?thesis by simp
  next
    case (Inr v)
    with Cons.prems p f1 have "perform_all emplace_back ops this h1 = (r, this', h')"
      by simp
    from Cons.IH [OF this] f1 show ?thesis by simp
  qed
qed

lemma perform_all_noops:
  assumes "\<forall>op \<in> set ops. is_noop op"
  shows "perform_all emplace_back ops this h = (None, this, h)"
  using assms
proof (induction ops)
  case Nil
  then show ?case by simp
next
  case (Cons op ops)
  then have "is_noop op" by simp
  then have "perform emplace_back op this h = (Inr this, this, h)"
    by (cases op) (simp_all add: op_deref_def op_pre_inc_def op_post_inc_def)
  with Cons show ?case by simp
qed

text \<open>
  Claim C6. Dereference, pre-increment and post-increment each return the adapter and
  leave the adapter and the heap as they were; so does any sequence of such calls, of any
  length and in any order. The reference returned by dereference and pre-increment and
  the copy returned by post-increment are both the adapter's value.
\<close>

theorem noops_change_nothing:
  assumes "\<forall>op \<in> set ops. is_noop op"
  shows "op_deref this h = (this, this, h)
    \<and> op_pre_inc this h = (this, this, h)
    \<and> op_post_inc this h = (this, this, h)
    \<and> perform_all emplace_back ops this h = (None, this, h)"
  using assms
  by (simp add: op_deref_def op_pre_inc_def op_post_inc_def perform_all_noops)

theorem noops_change_nothing_witness:
  "is_noop (Dereference :: (nat, string) operation)
   \<and> is_noop (Pre_increment :: (nat, string) operation)
   \<and> is_noop (Post_increment :: (nat, string) operation)
   \<and> perform_all (deque_emplace_back (ProgressBar_ctor :: _ \<Rightarrow> _ \<Rightarrow> unit + _))
        [Dereference, Pre_increment, Post_increment, Post_increment, Dereference]
        (back_emplacer 0) [0 \<mapsto> [\<lparr>m_out = 7, m_prefix = ''task0'', m_progress = 0\<rparr>]]
     = (None, back_emplacer 0, [0 \<mapsto> [\<lparr>m_out = 7, m_prefix = ''task0'', m_progress = 0\<rparr>]])"
proof -
  let ?ops = "[Dereference, Pre_increment, Post_increment, Post_increment, Dereference]
    :: (nat, string) operation list"
  have noops: "\<forall>op \<in> set ?ops. is_noop op"
    by simp
  from noops_change_nothing [OF noops, of "back_emplacer 0"
      "[0 \<mapsto> [\<lparr>m_out = 7, m_prefix = ''task0'', m_progress = 0\<rparr>]]"
      "deque_emplace_back (ProgressBar_ctor :: _ \<Rightarrow> _ \<Rightarrow> unit + _)"]
  show ?thesis by simp
qed

text \<open>
  Claim C7. An adapter constructed on the container at address \<open>a\<close> holds \<open>a\<close>, and after
  any sequence of dereferences, increments and assignments, failed or not, it still
  holds \<open>a\<close>. No such sequence creates or removes a container (the live addresses are the
  same) and none touches a container at another address: the target container is
  reached through the stored address only, never copied or moved.
\<close>

theorem adapter_keeps_its_container:
  assumes "perform_all emplace_back ops (back_emplace_iterator_ctor a) h = (r, this', h')"
  shows "m_container (back_emplace_iterator_ctor a) = a
    \<and> m_container this' = a
    \<and> dom h' = dom h
    \<and> (\<forall>p. p \<noteq> a \<longrightarrow> h' p = h p)"
proof -
  have a: "m_container (back_emplace_iterator_ctor a) = a"
    by (simp add: back_emplace_iterator_ctor_def)
  from perform_all_frame [OF assms] a show ?thesis by simp
qed

theorem adapter_keeps_its_container_witness:
  "perform_all (deque_emplace_back (ProgressBar_ctor :: _ \<Rightarrow> _ \<Rightarrow> unit + _))
      [Dereference, Assignment (7, ''task0''), Post_increment, Assignment (7, ''task1'')]
      (back_emplace_iterator_ctor 0) [0 \<mapsto> [], 5 \<mapsto> []]
    = (None, \<lparr>m_container = 0\<rparr>,
       [0 \<mapsto> [\<lparr>m_out = 7, m_prefix = ''task0'', m_progress = 0\<rparr>,
              \<lparr>m_out = 7, m_prefix = ''task1'', m_progress = 0\<rparr>],
        5 \<mapsto> []])
   \<and> m_container (back_emplace_iterator_ctor 0) = 0
   \<and> m_container \<lparr>m_container = 0\<rparr> = 0
   \<and> dom [0 \<mapsto> [\<lparr>m_out = 7, m_prefix = ''task0'', m_progress = 0\<rparr>,
                 \<lparr>m_out = 7, m_prefix = ''task1'', m_progress = 0\<rparr>],
           5 \<mapsto> []]
       = dom [0 \<mapsto> ([] :: ProgressBar list), 5 \<mapsto> []]
   \<and> [0 \<mapsto> [\<lparr>m_out = 7, m_prefix = ''task0'', m_progress = 0\<rparr>,
              \<lparr>m_out = 7, m_prefix = ''task1'', m_progress = 0\<rparr>],
        5 \<mapsto> []] 5
       = [0 \<mapsto> ([] :: ProgressBar list), 5 \<mapsto> []] 5"
proof -
  let ?h = "[0 \<mapsto> [], 5 \<mapsto> []] :: ProgressBar list heap"
  let ?h' = "[0 \<mapsto> [\<lparr>m_out = 7, m_prefix = ''task0'', m_progress = 0\<rparr>,
              \<lparr>m_out = 7, m_prefix = ''task1'', m_progress = 0\<rparr>],
        5 \<mapsto> []] :: ProgressBar list heap"
  have run: "perform_all (deque_emplace_back (ProgressBar_ctor :: _ \<Rightarrow> _ \<Rightarrow> unit + _))
      [Dereference, Assignment (7, ''task0''), Post_increment, Assignment (7, ''task1'')]
      (back_emplace_iterator_ctor 0) ?h = (None, \<lparr>m_container = 0\<rparr>, ?h')"
    by (simp add: back_emplace_iterator_ctor_def op_deref_def op_post_inc_def op_assign_def
        std_apply_def deque_emplace_back_def ProgressBar_ctor_def fun_upd_twist)
  from adapter_keeps_its_container [OF run] run show ?thesis
    by simp
qed

section \<open>Writing through the adapter with a transformation algorithm\<close>

text \<open>
  While every construction succeeds the loop appends one element per bundle; at the
  first bundle whose construction throws it stops with that exception, the container
  holding the elements of the bundles before it.
\<close>

lemma std_transform_deque:
  assumes "h (m_container d) = Some c"
    and "\<forall>x \<in> set xs. \<exists>e. std_apply ctor (f x) = Inr e"
  shows "std_transform (deque_emplace_back ctor) xs d f h =
    (Inr d, h(m_container d \<mapsto> c @ map (\<lambda>x. projr (std_apply ctor (f x))) xs))"
  using assms
proof (induction xs arbitrary: h c)
  case Nil
  then show ?case by (simp add: map_upd_triv)
next
  case (Cons x xs)
  from Cons.prems(2) obtain e where e: "std_apply ctor (f x) = Inr e" by auto
  then have e': "ctor (fst (f x)) (snd (f x)) = Inr e" by (simp add: std_apply_def)
  have step: "op_assign (deque_emplace_back ctor) d (f x) h =
      (Inr d, d, h(m_container d \<mapsto> c @ [e]))"
    using op_assign_deque_ok [of h d c ctor "fst (f x)" "snd (f x)" e] Cons.prems(1) e' by simp
  let ?h = "h(m_container d \<mapsto> c @ [e])"
  have live: "?h (m_container d) = Some (c @ [e])" by simp
  from Cons.prems(2) have rest: "\<forall>x \<in> set xs. \<exists>e. std_apply ctor (f x) = Inr e" by simp
  have "std_transform (deque_emplace_back ctor) (x # xs) d f h =
      std_transform (deque_emplace_back ctor) xs d f ?h"
    by (simp add: op_deref_def op_pre_inc_def step)
  also have "\<dots> = (Inr d, ?h(m_container d \<mapsto> (c @ [e]) @ map (\<lambda>x. projr (std_apply ctor (f x))) xs))"
    using Cons.IH [of ?h "c @ [e]"] live rest by blast
  also have "\<dots> = (Inr d, h(m_container d \<mapsto> c @ map (\<lambda>x. projr (std_apply ctor (f x))) (x # xs)))"
    by (simp add: e)
  finally show ?case .
qed

lemma std_transform_deque_throw:
  assumes "h (m_container d) = Some c"
    and "\<forall>x \<in> set xs. \<exists>e. std_apply ctor (f x) = Inr e"
    and "std_apply ctor (f y) = Inl exn"
  shows "std_transform (deque_emplace_back ctor) (xs @ y # ys) d f h =
    (Inl (Thrown exn), h(m_container d \<mapsto> c @ map (\<lambda>x. projr (std_apply ctor (f x))) xs))"
  using assms
proof (induction xs arbitrary: h c)
  case Nil
  from Nil.prems(3) have "ctor (fst (f y)) (snd (f y)) = Inl exn"
    by (simp add: std_apply_def)
  with Nil.prems(1) have "op_assign (deque_emplace_back ctor) d (f y) h = (Inl (Thrown exn), d, h)"
    using op_assign_deque_throw [of h d c ctor "fst (f y)" "snd (f y)" exn] by simp
  with Nil.prems(1) show ?case
    by (simp add: op_deref_def map_upd_triv)
next
  case (Cons x xs)
  from Cons.prems(2) obtain e where e: "std_apply ctor (f x) = Inr e" by auto
  then have e': "ctor (fst (f x)) (snd (f x)) = Inr e" by (simp add: std_apply_def)
  have step: "op_assign (deque_emplace_back ctor) d (f x) h =
      (Inr d, d, h(m_container d \<mapsto> c @ [e]))"
    using op_assign_deque_ok [of h d c ctor "fst (f x)" "snd (f x)" e] Cons.prems(1) e' by simp
  let ?h = "h(m_container d \<mapsto> c @ [e])"
  have live: "?h (m_container d) = Some (c @ [e])" by simp
  from Cons.prems(2) have rest: "\<forall>x \<in> set xs. \<exists>e. std_apply ctor (f x) = Inr e" by simp
  have "std_transform (deque_emplace_back ctor) ((x # xs) @ y # ys) d f h =
      std_transform (deque_emplace_back ctor) (xs @ y # ys) d f ?h"
    by (simp add: op_deref_def op_pre_inc_def step)
  also have "\<dots> = (Inl (Thrown exn),
      ?h(m_container d \<mapsto> (c @ [e]) @ map (\<lambda>x. projr (std_apply ctor (f x))) xs))"
    using Cons.IH [of ?h "c @ [e]"] live rest Cons.prems(3) by blast
  also have "\<dots> = (Inl (Thrown exn),
      h(m_container d \<mapsto> c @ map (\<lambda>x. projr (std_apply ctor (f x))) (x # xs)))"
    by (simp add: e)
  finally show ?case .
qed

lemma list3: "length xs = 3 \<Longrightarrow> xs = [xs ! 0, xs ! 1, xs ! 2]"
  by (auto simp: numeral_3_eq_3 length_Suc_conv)

text \<open>
  Claim C1. Let \<^verbatim>\<open>std::transform\<close> write the \<open>N\<close> bundles \<open>f x\<close>, for \<open>x\<close> in \<open>xs\<close>,
  through an adapter bound to a live container \<open>c\<close>, every construction succeeding.
  Then the container ends as \<open>c\<close> followed by exactly \<open>N\<close> new elements, the \<open>i\<close>-th of
  them constructed from the \<open>i\<close>-th bundle. For the empty container of
  \<^verbatim>\<open>do_tasks_algorithm\<close> these are exactly \<open>N\<close> elements.
\<close>

theorem transform_constructs_in_order:
  assumes "h (m_container d) = Some c"
    and "\<forall>x \<in> set xs. \<exists>e. std_apply ctor (f x) = Inr e"
  shows "\<exists>c'. std_transform (deque_emplace_back ctor) xs d f h
                = (Inr d, h(m_container d \<mapsto> c @ c'))
            \<and> length c' = length xs
            \<and> (\<forall>i < length xs. std_apply ctor (f (xs ! i)) = Inr (c' ! i))"
proof (intro exI conjI)
  show "std_transform (deque_emplace_back ctor) xs d f h
      = (Inr d, h(m_container d \<mapsto> c @ map (\<lambda>x. projr (std_apply ctor (f x))) xs))"
    using assms by (rule std_transform_deque)
  show "length (map (\<lambda>x. projr (std_apply ctor (f x))) xs) = length xs"
    by simp
  show "\<forall>i < length xs. std_apply ctor (f (xs ! i))
      = Inr (map (\<lambda>x. projr (std_apply ctor (f x))) xs ! i)"
  proof (intro allI impI)
    fix i assume i: "i < length xs"
    then have "xs ! i \<in> set xs" by simp
    with assms(2) obtain e where "std_apply ctor (f (xs ! i)) = Inr e" by blast
    with i show "std_apply ctor (f (xs ! i))
        = Inr (map (\<lambda>x. projr (std_apply ctor (f x))) xs ! i)"
      by simp
  qed
qed

theorem transform_constructs_in_order_witness:
  "[0 \<mapsto> []] (m_container (back_emplacer 0)) = Some ([] :: ProgressBar list)
   \<and> std_transform (deque_emplace_back (ProgressBar_ctor :: _ \<Rightarrow> _ \<Rightarrow> unit + _))
        [''task0'', ''task1'', ''task2''] (back_emplacer 0) (\<lambda>task. std_make_tuple 7 task)
        [0 \<mapsto> []]
     = (Inr (back_emplacer 0),
        [0 \<mapsto> [\<lparr>m_out = 7, m_prefix = ''task0'', m_progress = 0\<rparr>,
               \<lparr>m_out = 7, m_prefix = ''task1'', m_progress = 0\<rparr>,
               \<lparr>m_out = 7, m_prefix = ''task2'', m_progress = 0\<rparr>]])"
proof -
  let ?h = "[0 \<mapsto> []] :: ProgressBar list heap"
  let ?xs = "[''task0'', ''task1'', ''task2'']"
  let ?f = "\<lambda>task. std_make_tuple (7 :: streambuf) task"
  let ?ctor = "ProgressBar_ctor :: _ \<Rightarrow> _ \<Rightarrow> unit + _"
  have live: "?h (m_container (back_emplacer 0)) = Some []"
    by (simp add: back_emplacer_def back_emplace_iterator_ctor_def)
  have ok: "\<forall>x \<in> set ?xs. \<exists>e. std_apply ?ctor (?f x) = Inr e"
    by (simp add: ProgressBar_ctor_def std_apply_def)
  from transform_constructs_in_order [of ?h "back_emplacer 0" "[]" ?xs ?ctor ?f] live ok
  obtain c' where r: "std_transform (deque_emplace_back ?ctor) ?xs (back_emplacer 0) ?f ?h
        = (Inr (back_emplacer 0), ?h(m_container (back_emplacer 0) \<mapsto> [] @ c'))"
    and len: "length c' = length ?xs"
    and el: "\<forall>i < length ?xs. std_apply ?ctor (?f (?xs ! i)) = Inr (c' ! i)"
    by blast
  from el [rule_format, of 0] el [rule_format, of 1] el [rule_format, of 2]
  have "c' ! 0 = \<lparr>m_out = 7, m_prefix = ''task0'', m_progress = 0\<rparr>"
    and "c' ! 1 = \<lparr>m_out = 7, m_prefix = ''task1'', m_progress = 0\<rparr>"
    and "c' ! 2 = \<lparr>m_out = 7, m_prefix = ''task2'', m_progress = 0\<rparr>"
    by (simp_all add: ProgressBar_ctor_def std_apply_def std_make_tuple_def)
  moreover from len have "c' = [c' ! 0, c' ! 1, c' ! 2]"
    by (intro list3) simp
  ultimately have "c' = [\<lparr>m_out = 7, m_prefix = ''task0'', m_progress = 0\<rparr>,
      \<lparr>m_out = 7, m_prefix = ''task1'', m_progress = 0\<rparr>,
      \<lparr>m_out = 7, m_prefix = ''task2'', m_progress = 0\<rparr>]"
    by simp
  with r live show ?thesis
    by (simp add: back_emplacer_def back_emplace_iterator_ctor_def)
qed

section \<open>The two drivers\<close>





end
